theory Spec2Isabelle
  imports Main
begin

section \<open>The authentication schema\<close>

text \<open>
  The tables of the ``Authentication System Setup'' note, one record per row and one list
  per table. Columns that none of the modelled functions reads or writes
  (\<open>verification_token\<close>, \<open>reset_token\<close>, \<open>reset_token_expires\<close>, the role
  description, \<open>granted_at\<close>) are left out. Timestamps are milliseconds on one clock
  shared by JavaScript's \<open>Date.now()\<close> and PostgreSQL's \<open>NOW()\<close>; \<open>SERIAL\<close> keys
  are naturals; UUIDs and tokens are strings.
\<close>

type_synonym timestamp = int

record user_row =
  u_id :: nat
  u_username :: string
  u_email :: string
  u_password_hash :: string
  u_created_at :: timestamp
  u_last_login :: "timestamp option"
  u_is_active :: bool

record role_row =
  r_id :: nat
  r_name :: string

record user_role_row =
  ur_user_id :: nat
  ur_role_id :: nat

record session_row =
  s_id :: string
  s_user_id :: nat
  s_token :: string
  s_ip_address :: string
  s_user_agent :: string
  s_created_at :: timestamp
  s_expires_at :: timestamp
  s_is_valid :: bool

record auth_log_row =
  l_user_id :: "nat option"
  l_event_type :: string
  l_ip_address :: string
  l_user_agent :: string
  l_created_at :: timestamp
  l_details :: "(string \<times> string) list"

record db =
  users :: "user_row list"
  roles :: "role_row list"
  user_roles :: "user_role_row list"
  sessions :: "session_row list"
  auth_logs :: "auth_log_row list"

text \<open>
  What one call takes from outside the database: the clock, the value \<open>uuidv4()\<close>
  returns, the value \<open>gen_random_uuid()\<close> gives the new row's \<open>id\<close>,
  \<open>bcrypt.compare\<close>, and whether the \<open>INSERT INTO auth_logs\<close> succeeds.
\<close>

record env =
  e_now :: timestamp
  e_uuidv4 :: string
  e_row_uuid :: string
  e_compare :: "string \<Rightarrow> string \<Rightarrow> bool"
  e_audit_ok :: bool

section \<open>Session management\<close>

record session_handle =
  sh_token :: string
  sh_expiresAt :: timestamp

text \<open>\<open>createSession\<close>: a fresh token, 24 hours of life, one inserted row
  (\<open>created_at\<close> and \<open>is_valid\<close> take their column defaults).\<close>

definition createSession ::
  "env \<Rightarrow> db \<Rightarrow> nat \<Rightarrow> string \<Rightarrow> string \<Rightarrow> db \<times> session_handle" where
  "createSession ev d userId ipAddress userAgent =
     (let sessionToken = e_uuidv4 ev;
          expiresAt = e_now ev + 86400000
      in (d\<lparr>sessions := sessions d @
             [\<lparr>s_id = e_row_uuid ev, s_user_id = userId, s_token = sessionToken,
               s_ip_address = ipAddress, s_user_agent = userAgent,
               s_created_at = e_now ev, s_expires_at = expiresAt, s_is_valid = True\<rparr>]\<rparr>,
          \<lparr>sh_token = sessionToken, sh_expiresAt = expiresAt\<rparr>))"

text \<open>\<open>invalidateSession\<close>: \<open>UPDATE sessions SET is_valid = false WHERE token = $1\<close>.\<close>

definition invalidateSession :: "db \<Rightarrow> string \<Rightarrow> db" where
  "invalidateSession d sessionToken =
     d\<lparr>sessions := map (\<lambda>s. if s_token s = sessionToken then s\<lparr>s_is_valid := False\<rparr> else s)
                        (sessions d)\<rparr>"

record session_info =
  si_id :: string
  si_userId :: nat
  si_username :: string
  si_expiresAt :: timestamp

text \<open>
  The rows of \<open>validateSession\<close>'s query: \<open>sessions JOIN users ON s.user_id = u.id\<close>
  filtered by token, validity flag and expiry. SQL leaves the order of the rows open; the
  model lists them session by session in table order.
\<close>

definition session_rows :: "timestamp \<Rightarrow> db \<Rightarrow> string \<Rightarrow> (session_row \<times> user_row) list" where
  "session_rows now d sessionToken =
     filter (\<lambda>(s, u). s_user_id s = u_id u \<and> s_token s = sessionToken \<and> s_is_valid s
                        \<and> s_expires_at s > now)
       (List.product (sessions d) (users d))"

text \<open>\<open>validateSession\<close>: \<open>null\<close> is \<open>None\<close>; the write on the inactive-user branch is
  the returned database.\<close>

definition validateSession :: "timestamp \<Rightarrow> db \<Rightarrow> string \<Rightarrow> db \<times> session_info option" where
  "validateSession now d sessionToken =
     (case session_rows now d sessionToken of
        [] \<Rightarrow> (d, None)
      | (s, u) # _ \<Rightarrow>
          if \<not> u_is_active u then (invalidateSession d sessionToken, None)
          else (d, Some \<lparr>si_id = s_id s, si_userId = s_user_id s,
                         si_username = u_username u, si_expiresAt = s_expires_at s\<rparr>))"

text \<open>\<open>cleanupSessions\<close>: delete what is expired or invalid, return the row count.\<close>

definition cleanupSessions :: "timestamp \<Rightarrow> db \<Rightarrow> db \<times> nat" where
  "cleanupSessions now d =
     (d\<lparr>sessions := filter (\<lambda>s. \<not> (s_expires_at s < now \<or> \<not> s_is_valid s)) (sessions d)\<rparr>,
      length (filter (\<lambda>s. s_expires_at s < now \<or> \<not> s_is_valid s) (sessions d)))"

text \<open>\<open>deactivateUser\<close>: \<open>UPDATE users SET is_active = false WHERE id = $1\<close>.\<close>

definition deactivateUser :: "db \<Rightarrow> nat \<Rightarrow> db" where
  "deactivateUser d userId =
     d\<lparr>users := map (\<lambda>u. if u_id u = userId then u\<lparr>u_is_active := False\<rparr> else u) (users d)\<rparr>"

section \<open>Credentials, audit log and the login flow\<close>

text \<open>
  \<open>bcrypt\<close> is a library outside the notes: its \<open>compare\<close> is the parameter
  \<open>e_compare\<close>, and every call of it is recorded, so that a theorem can say on which
  paths the password is verified at all.
\<close>

datatype bcrypt_call = BcryptCompare string string

record user_summary =
  us_id :: nat
  us_username :: string

text \<open>\<open>verifyUser\<close>: the row with that email (the column is \<open>UNIQUE\<close>), then the
  comparison; \<open>null\<close> is \<open>None\<close>.\<close>

definition verifyUser ::
  "(string \<Rightarrow> string \<Rightarrow> bool) \<Rightarrow> db \<Rightarrow> string \<Rightarrow> string
     \<Rightarrow> user_summary option \<times> bcrypt_call list" where
  "verifyUser compare d email password =
     (case find (\<lambda>u. u_email u = email) (users d) of
        None \<Rightarrow> (None, [])
      | Some user \<Rightarrow>
          let passwordValid = compare password (u_password_hash user);
              calls = [BcryptCompare password (u_password_hash user)]
          in if \<not> passwordValid then (None, calls)
             else (Some \<lparr>us_id = u_id user, us_username = u_username user\<rparr>, calls))"

text \<open>A rejected promise is the left summand: a failed query, or the \<open>TypeError\<close> of
  reading a property of \<open>undefined\<close>.\<close>

datatype error = QueryError | TypeError

text \<open>
  \<open>registerUser\<close>: the hash of the password with 12 salt rounds, then one insert. What
  \<open>bcrypt.hash\<close> returned on this call is the parameter \<open>hash\<close>, and the value the
  \<open>SERIAL\<close> sequence gives the row is \<open>next_id\<close>. The insert fails when the primary
  key or one of the \<open>UNIQUE\<close> columns is taken.
\<close>

definition registerUser ::
  "(string \<Rightarrow> nat \<Rightarrow> string) \<Rightarrow> nat \<Rightarrow> timestamp \<Rightarrow> db \<Rightarrow> string \<Rightarrow> string \<Rightarrow> string
     \<Rightarrow> error + db \<times> nat" where
  "registerUser hash next_id now d username email password =
     (let saltRounds = 12;
          passwordHash = hash password saltRounds
      in if list_ex (\<lambda>u. u_id u = next_id \<or> u_username u = username \<or> u_email u = email)
              (users d)
         then Inl QueryError
         else Inr (d\<lparr>users := users d @
                      [\<lparr>u_id = next_id, u_username = username, u_email = email,
                        u_password_hash = passwordHash, u_created_at = now,
                        u_last_login = None, u_is_active = True\<rparr>]\<rparr>,
                   next_id))"

record user_with_roles =
  uw_id :: nat
  uw_username :: string
  uw_email :: string
  uw_created_at :: timestamp
  uw_last_login :: "timestamp option"
  uw_is_active :: bool
  uw_roles :: "string list"

text \<open>\<open>getUserWithRoles\<close>: the user row with the names of its roles aggregated;
  \<open>result.rows[0]\<close> of an empty result is \<open>undefined\<close>, here \<open>None\<close>.\<close>

definition getUserWithRoles :: "db \<Rightarrow> nat \<Rightarrow> user_with_roles option" where
  "getUserWithRoles d userId =
     (case find (\<lambda>u. u_id u = userId) (users d) of
        None \<Rightarrow> None
      | Some u \<Rightarrow>
          Some \<lparr>uw_id = u_id u, uw_username = u_username u, uw_email = u_email u,
                uw_created_at = u_created_at u, uw_last_login = u_last_login u,
                uw_is_active = u_is_active u,
                uw_roles = [r_name r. ur \<leftarrow> user_roles d, ur_user_id ur = u_id u,
                                      r \<leftarrow> roles d, r_id r = ur_role_id ur]\<rparr>)"

text \<open>\<open>generateToken\<close>: the payload and the \<open>expiresIn\<close> option handed to
  \<open>jwt.sign\<close>; the signature itself is the library's and stays abstract.\<close>

record jwt_payload =
  jp_id :: nat
  jp_username :: string
  jp_roles :: "string list"

datatype jwt = JwtSign jwt_payload string

definition generateToken :: "user_with_roles \<Rightarrow> jwt" where
  "generateToken user =
     JwtSign \<lparr>jp_id = uw_id user, jp_username = uw_username user, jp_roles = uw_roles user\<rparr>
             ''1h''"

text \<open>\<open>logAuthEvent\<close>: one \<open>INSERT INTO auth_logs\<close>, awaited and not caught.\<close>

definition logAuthEvent ::
  "env \<Rightarrow> db \<Rightarrow> nat option \<Rightarrow> string \<Rightarrow> string \<Rightarrow> string \<Rightarrow> (string \<times> string) list
     \<Rightarrow> error + db" where
  "logAuthEvent ev d userId eventType ipAddress userAgent details =
     (if e_audit_ok ev
      then Inr (d\<lparr>auth_logs := auth_logs d @
                  [\<lparr>l_user_id = userId, l_event_type = eventType, l_ip_address = ipAddress,
                    l_user_agent = userAgent, l_created_at = e_now ev,
                    l_details = details\<rparr>]\<rparr>)
      else Inl QueryError)"

datatype login_result =
  LoginFailure string
| LoginSuccess user_with_roles jwt session_handle

text \<open>
  \<open>login\<close>, the complete flow of the note: the database as the call leaves it, the
  \<open>bcrypt\<close> calls made, and either the rejection or the returned object. The audit
  insert is the query whose failure is modelled; the other queries are taken to succeed.
\<close>

definition login ::
  "env \<Rightarrow> db \<Rightarrow> string \<Rightarrow> string \<Rightarrow> string \<Rightarrow> string
     \<Rightarrow> db \<times> bcrypt_call list \<times> (error + login_result)" where
  "login ev d email password ipAddress userAgent =
     (case verifyUser (e_compare ev) d email password of
        (None, calls) \<Rightarrow>
          (case logAuthEvent ev d None ''failed_login'' ipAddress userAgent
                  [(''email'', email)] of
             Inl e \<Rightarrow> (d, calls, Inl e)
           | Inr d1 \<Rightarrow> (d1, calls, Inr (LoginFailure ''Invalid credentials'')))
      | (Some user, calls) \<Rightarrow>
          (case getUserWithRoles d (us_id user) of
             None \<Rightarrow> (d, calls, Inl TypeError)
           | Some userWithRoles \<Rightarrow>
               let token = generateToken userWithRoles;
                   (d1, session) = createSession ev d (us_id user) ipAddress userAgent;
                   d2 = d1\<lparr>users := map (\<lambda>u. if u_id u = us_id user
                                                then u\<lparr>u_last_login := Some (e_now ev)\<rparr>
                                                else u) (users d1)\<rparr>
               in (case logAuthEvent ev d2 (Some (us_id user)) ''login'' ipAddress userAgent [] of
                     Inl e \<Rightarrow> (d2, calls, Inl e)
                   | Inr d3 \<Rightarrow> (d3, calls, Inr (LoginSuccess userWithRoles token session)))))"

subsection \<open>The session-cookie controller of the simple authentication server\<close>

text \<open>
  The second note keeps one \<open>role\<close> column on the user and the login state in
  \<open>req.session\<close>. \<open>userService.findByEmail\<close> is not in the notes: it is the parameter
  \<open>findByEmail\<close>, whose failure is what the controller's \<open>catch\<close> answers.
\<close>

record account_row =
  a_id :: nat
  a_username :: string
  a_email :: string
  a_password_hash :: string
  a_is_active :: bool
  a_role :: "string option"

record account_public =
  ap_id :: nat
  ap_username :: string
  ap_email :: string
  ap_is_active :: bool
  ap_role :: "string option"

record http_session =
  hs_userId :: "nat option"
  hs_role :: "string option"

text \<open>JavaScript's \<open>!x\<close> on an id that may be missing.\<close>

definition falsy_id :: "nat option \<Rightarrow> bool" where
  "falsy_id x = (case x of None \<Rightarrow> True | Some n \<Rightarrow> n = 0)"

datatype login_reply =
  LoginReply nat string
| LoginOk string account_public

text \<open>\<open>authController.login\<close>: the session after the request, the \<open>bcrypt\<close> calls
  made, and the response. A body field that is missing or the empty string is falsy.\<close>

definition login_controller ::
  "(string \<Rightarrow> error + account_row option) \<Rightarrow> (string \<Rightarrow> string \<Rightarrow> bool) \<Rightarrow> http_session
     \<Rightarrow> string option \<Rightarrow> string option \<Rightarrow> http_session \<times> bcrypt_call list \<times> login_reply" where
  "login_controller findByEmail compare sess body_email body_password =
     (case (body_email, body_password) of
        (Some email, Some password) \<Rightarrow>
          if email = [] \<or> password = []
          then (sess, [], LoginReply 400 ''Email and password are required'')
          else
            (case findByEmail email of
               Inl e \<Rightarrow> (sess, [], LoginReply 500 ''An error occurred during login'')
             | Inr None \<Rightarrow> (sess, [], LoginReply 401 ''Invalid credentials'')
             | Inr (Some user) \<Rightarrow>
                 if \<not> a_is_active user
                 then (sess, [], LoginReply 401 ''Account is inactive'')
                 else
                   let isPasswordValid = compare password (a_password_hash user);
                       calls = [BcryptCompare password (a_password_hash user)]
                   in if \<not> isPasswordValid
                      then (sess, calls, LoginReply 401 ''Invalid credentials'')
                      else (sess\<lparr>hs_userId := Some (a_id user), hs_role := a_role user\<rparr>,
                            calls,
                            LoginOk ''Login successful''
                              \<lparr>ap_id = a_id user, ap_username = a_username user,
                                ap_email = a_email user, ap_is_active = a_is_active user,
                                ap_role = a_role user\<rparr>))
      | _ \<Rightarrow> (sess, [], LoginReply 400 ''Email and password are required''))"

section \<open>Role checks\<close>

text \<open>A middleware either calls \<open>next()\<close> or answers with a status and a message.\<close>

datatype outcome = Next | Reply nat string

text \<open>\<open>req.user\<close> is the verified token's payload; its \<open>roles\<close> may be missing.\<close>

record principal =
  p_id :: nat
  p_username :: string
  p_roles :: "string list option"

text \<open>\<open>authorize(requiredRoles)\<close> of the first note, applied to \<open>req.user\<close>.\<close>

definition authorize :: "string list \<Rightarrow> principal option \<Rightarrow> outcome" where
  "authorize requiredRoles req_user =
     (case req_user of
        None \<Rightarrow> Reply 401 ''Authentication required''
      | Some user \<Rightarrow>
          let hasRole = list_ex (\<lambda>role. case p_roles user of
                                           None \<Rightarrow> False
                                         | Some rs \<Rightarrow> role \<in> set rs) requiredRoles
          in if \<not> hasRole then Reply 403 ''Insufficient permissions'' else Next)"

text \<open>\<open>hasRole(role)\<close> of the second note, applied to \<open>req.session\<close>.\<close>

definition hasRole :: "string \<Rightarrow> http_session option \<Rightarrow> outcome" where
  "hasRole role req_session =
     (case req_session of
        None \<Rightarrow> Reply 401 ''Authentication required''
      | Some sess \<Rightarrow>
          if falsy_id (hs_userId sess) then Reply 401 ''Authentication required''
          else if hs_role sess \<noteq> Some role \<and> hs_role sess \<noteq> Some ''admin''
               then Reply 403 ''Insufficient permissions''
               else Next)"

subsection \<open>Logging out of the session-cookie server\<close>






text \<open>
  The policy in the specification's words, for comparison with \<open>authorize\<close>: each role
  name grants a set of permissions (none when the name is unknown), and access is allowed
  when the permissions granted by the principal's roles cover every required one.
\<close>

definition spec_authorize ::
  "(string \<times> string list) list \<Rightarrow> string list \<Rightarrow> string list \<Rightarrow> bool" where
  "spec_authorize grants principalRoles required =
     list_all (\<lambda>p. list_ex (\<lambda>r. case map_of grants r of
                                    None \<Rightarrow> False
                                  | Some ps \<Rightarrow> p \<in> set ps) principalRoles) required"

section \<open>Sequences of calls\<close>

text \<open>Any later history of a database: the functions of the note that write it, called
  in any order with any arguments.\<close>

datatype api_call =
  CreateSession env nat string string
| ValidateSession timestamp string
| InvalidateSession string
| CleanupSessions timestamp
| DeactivateUser nat
| Login env string string string string

fun run :: "api_call \<Rightarrow> db \<Rightarrow> db" where
  "run (CreateSession ev userId ip ua) d = fst (createSession ev d userId ip ua)"
| "run (ValidateSession now tok) d = fst (validateSession now d tok)"
| "run (InvalidateSession tok) d = invalidateSession d tok"
| "run (CleanupSessions now) d = fst (cleanupSessions now d)"
| "run (DeactivateUser userId) d = deactivateUser d userId"
| "run (Login ev email password ip ua) d = fst (login ev d email password ip ua)"

text \<open>The token a call hands out, if it creates a session.\<close>

fun issued_token :: "api_call \<Rightarrow> string option" where
  "issued_token (CreateSession ev userId ip ua) = Some (e_uuidv4 ev)"
| "issued_token (Login ev email password ip ua) = Some (e_uuidv4 ev)"
| "issued_token _ = None"

definition run_all :: "api_call list \<Rightarrow> db \<Rightarrow> db" where
  "run_all calls d = fold run calls d"

text \<open>A token is dead at a time when every row that carries it is marked invalid or has
  expired by then.\<close>

definition dead_token :: "timestamp \<Rightarrow> db \<Rightarrow> string \<Rightarrow> bool" where
  "dead_token now d tok =
     list_all (\<lambda>s. s_token s \<noteq> tok \<or> \<not> s_is_valid s \<or> s_expires_at s \<le> now) (sessions d)"

section \<open>Example data\<close>

text \<open>A small database on which the theorems below are instantiated: an active user with
  the role \<open>viewer\<close>, a deactivated user, and one session each.\<close>

definition alice :: user_row where
  "alice = \<lparr>u_id = 1, u_username = ''alice'', u_email = ''alice@example.com'',
             u_password_hash = ''hash-of-Secret123!'', u_created_at = 0,
             u_last_login = None, u_is_active = True\<rparr>"

definition bob :: user_row where
  "bob = \<lparr>u_id = 2, u_username = ''bob'', u_email = ''bob@example.com'',
           u_password_hash = ''hash-of-hunter2'', u_created_at = 0,
           u_last_login = None, u_is_active = False\<rparr>"

definition session_a :: session_row where
  "session_a = \<lparr>s_id = ''row-a'', s_user_id = 1, s_token = ''tok-a'',
                 s_ip_address = ''10.0.0.1'', s_user_agent = ''curl'',
                 s_created_at = 0, s_expires_at = 1000, s_is_valid = True\<rparr>"

definition session_b :: session_row where
  "session_b = \<lparr>s_id = ''row-b'', s_user_id = 2, s_token = ''tok-b'',
                 s_ip_address = ''10.0.0.2'', s_user_agent = ''curl'',
                 s_created_at = 0, s_expires_at = 1000, s_is_valid = True\<rparr>"

definition db0 :: db where
  "db0 = \<lparr>users = [alice, bob], roles = [\<lparr>r_id = 1, r_name = ''viewer''\<rparr>],
           user_roles = [\<lparr>ur_user_id = 1, ur_role_id = 1\<rparr>],
           sessions = [session_a, session_b], auth_logs = []\<rparr>"

text \<open>Stand-ins for \<open>bcrypt.compare\<close> and \<open>bcrypt.hash\<close> on the example hashes, and
  two outside worlds that differ only in whether the audit insert succeeds.\<close>

definition toy_compare :: "string \<Rightarrow> string \<Rightarrow> bool" where
  "toy_compare password hash = (hash = ''hash-of-'' @ password)"

definition toy_hash :: "string \<Rightarrow> nat \<Rightarrow> string" where
  "toy_hash password saltRounds = ''hash-of-'' @ password"

definition env0 :: env where
  "env0 = \<lparr>e_now = 500, e_uuidv4 = ''tok-c'', e_row_uuid = ''row-c'',
            e_compare = toy_compare, e_audit_ok = True\<rparr>"

definition env_audit_down :: env where
  "env_audit_down = env0\<lparr>e_audit_ok := False\<rparr>"

text \<open>The principal of a token issued to the first user, the role table of the
  specification's example, and two accounts of the session-cookie server with their
  lookup by email.\<close>

definition viewer_principal :: principal where
  "viewer_principal = \<lparr>p_id = 1, p_username = ''alice'', p_roles = Some [''viewer'']\<rparr>"

definition viewer_grants :: "(string \<times> string list) list" where
  "viewer_grants = [(''viewer'', [''read''])]"

definition carol :: account_row where
  "carol = \<lparr>a_id = 3, a_username = ''carol'', a_email = ''carol@example.com'',
             a_password_hash = ''hash-of-Secret123!'', a_is_active = True,
             a_role = Some ''user''\<rparr>"

definition dave :: account_row where
  "dave = \<lparr>a_id = 4, a_username = ''dave'', a_email = ''dave@example.com'',
            a_password_hash = ''hash-of-hunter2'', a_is_active = False,
            a_role = Some ''user''\<rparr>"

definition accounts_by_email :: "string \<Rightarrow> error + account_row option" where
  "accounts_by_email e = Inr (find (\<lambda>a. a_email a = e) [carol, dave])"


section \<open>Properties of the session functions\<close>

lemma session_rows_dead:
  assumes "\<And>s. s \<in> set (sessions d) \<Longrightarrow> s_token s = tok \<Longrightarrow> \<not> s_is_valid s \<or> s_expires_at s \<le> now"
  shows "session_rows now d tok = []"
proof -
  have "\<not> (s_is_valid s \<and> now < s_expires_at s)"
    if "s \<in> set (sessions d)" "s_token s = tok" for s
    using assms[OF that] by auto
  then show ?thesis
    unfolding session_rows_def filter_empty_conv by auto
qed

lemma validateSession_dead:
  assumes "\<And>s. s \<in> set (sessions d) \<Longrightarrow> s_token s = tok \<Longrightarrow> \<not> s_is_valid s \<or> s_expires_at s \<le> now"
  shows "validateSession now d tok = (d, None)"
  by (simp add: validateSession_def session_rows_dead[OF assms])

lemma sessions_invalidateSession:
  "sessions (invalidateSession d tok) =
     map (\<lambda>s. if s_token s = tok then s\<lparr>s_is_valid := False\<rparr> else s) (sessions d)"
  by (simp add: invalidateSession_def)


subsection \<open>Dead tokens stay dead\<close>

lemma dead_token_iff:
  "dead_token now d tok \<longleftrightarrow>
     (\<forall>s\<in>set (sessions d). s_token s = tok \<longrightarrow> \<not> s_is_valid s \<or> s_expires_at s \<le> now)"
  unfolding dead_token_def list_all_iff by blast

lemma dead_tokenD:
  "dead_token now d tok \<Longrightarrow> s \<in> set (sessions d) \<Longrightarrow> s_token s = tok
     \<Longrightarrow> \<not> s_is_valid s \<or> s_expires_at s \<le> now"
  unfolding dead_token_iff by blast

lemma validateSession_dead_token:
  "dead_token now d tok \<Longrightarrow> validateSession now d tok = (d, None)"
  by (rule validateSession_dead) (rule dead_tokenD)

lemma dead_token_mono:
  assumes "dead_token now d tok" "now \<le> now'"
  shows "dead_token now' d tok"
  unfolding dead_token_iff
proof (intro ballI impI)
  fix s assume "s \<in> set (sessions d)" "s_token s = tok"
  then have "\<not> s_is_valid s \<or> s_expires_at s \<le> now"
    using assms(1) by (rule dead_tokenD[rotated])
  then show "\<not> s_is_valid s \<or> s_expires_at s \<le> now'"
    using assms(2) by linarith
qed

lemma dead_token_invalidateSession_same: "dead_token now (invalidateSession d tok) tok"
  unfolding dead_token_iff sessions_invalidateSession
proof (intro ballI impI)
  fix s' assume "s' \<in> set (map (\<lambda>s. if s_token s = tok then s\<lparr>s_is_valid := False\<rparr> else s) (sessions d))"
    and tok: "s_token s' = tok"
  then obtain s where "s \<in> set (sessions d)"
    and s': "s' = (if s_token s = tok then s\<lparr>s_is_valid := False\<rparr> else s)"
    by (auto simp only: set_map image_iff)
  show "\<not> s_is_valid s' \<or> s_expires_at s' \<le> now"
  proof (cases "s_token s = tok")
    case True then show ?thesis using s' by simp
  next
    case False then show ?thesis using s' tok by simp
  qed
qed

lemma dead_token_invalidateSession:
  assumes "dead_token now d tok"
  shows "dead_token now (invalidateSession d tok') tok"
  unfolding dead_token_iff sessions_invalidateSession
proof (intro ballI impI)
  fix s' assume "s' \<in> set (map (\<lambda>s. if s_token s = tok' then s\<lparr>s_is_valid := False\<rparr> else s) (sessions d))"
    and tok: "s_token s' = tok"
  then obtain s where s: "s \<in> set (sessions d)"
    and s': "s' = (if s_token s = tok' then s\<lparr>s_is_valid := False\<rparr> else s)"
    by (auto simp only: set_map image_iff)
  show "\<not> s_is_valid s' \<or> s_expires_at s' \<le> now"
  proof (cases "s_token s = tok'")
    case True then show ?thesis using s' by simp
  next
    case False
    then have "s' = s" using s' by simp
    then show ?thesis using dead_tokenD[OF assms s] tok by simp
  qed
qed

lemma fst_validateSession:
  "fst (validateSession t d tok) = d \<or> fst (validateSession t d tok) = invalidateSession d tok"
proof (cases "session_rows t d tok")
  case Nil
  then show ?thesis by (simp add: validateSession_def)
next
  case (Cons r rs)
  obtain s u where "r = (s, u)" by (cases r)
  with Cons show ?thesis by (simp add: validateSession_def)
qed

lemma dead_token_validateSession:
  "dead_token now d tok \<Longrightarrow> dead_token now (fst (validateSession t d tok')) tok"
  using fst_validateSession[of t d tok'] dead_token_invalidateSession[of now d tok tok']
  by (elim disjE) simp_all

lemma sessions_cleanupSessions:
  "sessions (fst (cleanupSessions t d))
     = filter (\<lambda>s. \<not> (s_expires_at s < t \<or> \<not> s_is_valid s)) (sessions d)"
  by (simp add: cleanupSessions_def)

lemma users_cleanupSessions: "users (fst (cleanupSessions t d)) = users d"
  by (simp add: cleanupSessions_def)

lemma dead_token_cleanupSessions:
  assumes "dead_token now d tok"
  shows "dead_token now (fst (cleanupSessions t d)) tok"
  unfolding dead_token_iff sessions_cleanupSessions
proof (intro ballI impI)
  fix s assume "s \<in> set (filter (\<lambda>s. \<not> (s_expires_at s < t \<or> \<not> s_is_valid s)) (sessions d))"
    and "s_token s = tok"
  then have "s \<in> set (sessions d)" by simp
  then show "\<not> s_is_valid s \<or> s_expires_at s \<le> now"
    using dead_tokenD[OF assms] \<open>s_token s = tok\<close> by blast
qed

lemma dead_token_deactivateUser:
  "dead_token now d tok \<Longrightarrow> dead_token now (deactivateUser d userId) tok"
  by (simp add: dead_token_def deactivateUser_def)

lemma sessions_createSession:
  "sessions (fst (createSession ev d userId ip ua)) = sessions d @
     [\<lparr>s_id = e_row_uuid ev, s_user_id = userId, s_token = e_uuidv4 ev,
       s_ip_address = ip, s_user_agent = ua,
       s_created_at = e_now ev, s_expires_at = e_now ev + 86400000, s_is_valid = True\<rparr>]"
  by (simp add: createSession_def Let_def)

lemma dead_token_createSession:
  "dead_token now d tok \<Longrightarrow> e_uuidv4 ev \<noteq> tok
     \<Longrightarrow> dead_token now (fst (createSession ev d userId ip ua)) tok"
  by (simp add: dead_token_def sessions_createSession)

lemma sessions_logAuthEvent:
  "logAuthEvent ev d uid ty ip ua details = Inr d' \<Longrightarrow> sessions d' = sessions d"
  by (auto simp: logAuthEvent_def split: if_splits)

lemma sessions_login:
  "sessions (fst (login ev d email password ip ua)) = sessions d
   \<or> (\<exists>userId. sessions (fst (login ev d email password ip ua))
                  = sessions (fst (createSession ev d userId ip ua)))"
proof (cases "verifyUser (e_compare ev) d email password")
  case (Pair r calls)
  show ?thesis
  proof (cases r)
    case None
    show ?thesis
    proof (cases "logAuthEvent ev d None ''failed_login'' ip ua [(''email'', email)]")
      case (Inl e)
      with Pair None show ?thesis by (simp add: login_def)
    next
      case (Inr d1)
      with Pair None sessions_logAuthEvent[OF Inr] show ?thesis by (simp add: login_def)
    qed
  next
    case (Some user)
    show ?thesis
    proof (cases "getUserWithRoles d (us_id user)")
      case None
      with Pair Some show ?thesis by (simp add: login_def)
    next
      case (Some uw)
      obtain d1 h where cs: "createSession ev d (us_id user) ip ua = (d1, h)"
        by (cases "createSession ev d (us_id user) ip ua")
      let ?d2 = "d1\<lparr>users := map (\<lambda>u. if u_id u = us_id user
                                       then u\<lparr>u_last_login := Some (e_now ev)\<rparr>
                                       else u) (users d1)\<rparr>"
      have "sessions (fst (login ev d email password ip ua)) = sessions d1"
      proof (cases "logAuthEvent ev ?d2 (Some (us_id user)) ''login'' ip ua []")
        case (Inl e)
        with Pair \<open>r = Some user\<close> Some cs show ?thesis by (simp add: login_def)
      next
        case (Inr d3)
        with Pair \<open>r = Some user\<close> Some cs sessions_logAuthEvent[OF Inr]
        show ?thesis by (simp add: login_def)
      qed
      also have "d1 = fst (createSession ev d (us_id user) ip ua)"
        using cs by simp
      finally show ?thesis by blast
    qed
  qed
qed

lemma dead_token_login:
  assumes "dead_token now d tok" "e_uuidv4 ev \<noteq> tok"
  shows "dead_token now (fst (login ev d email password ip ua)) tok"
  using sessions_login[of ev d email password ip ua]
proof (elim disjE exE)
  assume "sessions (fst (login ev d email password ip ua)) = sessions d"
  then show ?thesis using assms(1) by (simp only: dead_token_def)
next
  fix userId
  assume "sessions (fst (login ev d email password ip ua))
            = sessions (fst (createSession ev d userId ip ua))"
  then show ?thesis
    using dead_token_createSession[OF assms, of userId ip ua]
    by (simp only: dead_token_def)
qed

lemma dead_token_run:
  "dead_token now d tok \<Longrightarrow> issued_token c \<noteq> Some tok \<Longrightarrow> dead_token now (run c d) tok"
  by (cases c)
     (simp_all add: dead_token_createSession dead_token_validateSession
        dead_token_invalidateSession dead_token_cleanupSessions dead_token_deactivateUser
        dead_token_login)

lemma dead_token_run_all:
  "dead_token now d tok \<Longrightarrow> \<forall>c\<in>set calls. issued_token c \<noteq> Some tok
     \<Longrightarrow> dead_token now (run_all calls d) tok"
  unfolding run_all_def
  by (induction calls arbitrary: d) (simp_all add: dead_token_run)

lemma dead_token_of_row:
  assumes "s \<in> set (sessions d)" "distinct (map s_token (sessions d))"
    and "\<not> s_is_valid s \<or> s_expires_at s \<le> now"
  shows "dead_token now d (s_token s)"
proof -
  have "s' = s" if "s' \<in> set (sessions d)" "s_token s' = s_token s" for s'
    using that assms(1,2) by (meson distinct_map inj_onD)
  then show ?thesis
    using assms(3) by (auto simp: dead_token_def list_all_iff)
qed

subsection \<open>The join on a unique token\<close>

lemma filter_single:
  "distinct xs \<Longrightarrow> x \<in> set xs \<Longrightarrow> P x \<Longrightarrow> (\<And>y. y \<in> set xs \<Longrightarrow> P y \<Longrightarrow> y = x)
     \<Longrightarrow> filter P xs = [x]"
proof (induction xs)
  case Nil
  then show ?case by simp
next
  case (Cons a xs)
  show ?case
  proof (cases "a = x")
    case True
    have "filter P xs = []"
      unfolding filter_empty_conv
    proof (intro ballI notI)
      fix y assume "y \<in> set xs" "P y"
      then have "y = x" using Cons.prems(4) by simp
      then show False using \<open>y \<in> set xs\<close> True Cons.prems(1) by simp
    qed
    then show ?thesis using True Cons.prems(3) by simp
  next
    case False
    have "\<not> P a"
    proof
      assume "P a"
      then have "a = x" by (rule Cons.prems(4)[rotated]) simp
      with False show False by simp
    qed
    moreover have "filter P xs = [x]"
    proof (rule Cons.IH)
      show "distinct xs" using Cons.prems(1) by simp
      show "x \<in> set xs" using Cons.prems(2) False by simp
      show "P x" by (rule Cons.prems(3))
      show "y = x" if "y \<in> set xs" "P y" for y
        by (rule Cons.prems(4)) (use that in simp_all)
    qed
    ultimately show ?thesis by simp
  qed
qed

lemma session_rows_single:
  assumes s: "s \<in> set (sessions d)" and ds: "distinct (map s_token (sessions d))"
    and u: "u \<in> set (users d)" "u_id u = s_user_id s" and du: "distinct (map u_id (users d))"
    and live: "s_is_valid s" "now < s_expires_at s"
  shows "session_rows now d (s_token s) = [(s, u)]"
  unfolding session_rows_def
proof (rule filter_single)
  show "distinct (List.product (sessions d) (users d))"
    using ds du by (simp add: distinct_product distinct_map)
  show "(s, u) \<in> set (List.product (sessions d) (users d))"
    using s u by simp
  show "case (s, u) of (s', u') \<Rightarrow> s_user_id s' = u_id u' \<and> s_token s' = s_token s
          \<and> s_is_valid s' \<and> now < s_expires_at s'"
    using u live by simp
next
  fix y assume y: "y \<in> set (List.product (sessions d) (users d))"
    and py: "case y of (s', u') \<Rightarrow> s_user_id s' = u_id u' \<and> s_token s' = s_token s
          \<and> s_is_valid s' \<and> now < s_expires_at s'"
  obtain s' u' where [simp]: "y = (s', u')" by (cases y)
  have "s' = s"
    using y py s ds by (auto simp: distinct_map dest: inj_onD)
  moreover have "u' = u"
    using y py u du \<open>s' = s\<close> by (auto simp: distinct_map dest: inj_onD)
  ultimately show "y = (s, u)" by simp
qed

lemma filter_product_filter:
  assumes "\<And>s u. P (s, u) \<Longrightarrow> Q s"
  shows "filter P (List.product (filter Q xs) ys) = filter P (List.product xs ys)"
proof (induction xs)
  case Nil
  then show ?case by simp
next
  case (Cons x xs)
  have "filter P (map (Pair x) ys) = []" if "\<not> Q x"
    unfolding filter_empty_conv using assms that by auto
  with Cons show ?case by simp
qed

lemma session_rows_cleanupSessions:
  assumes "t \<le> now"
  shows "session_rows now (fst (cleanupSessions t d)) tok = session_rows now d tok"
  unfolding session_rows_def sessions_cleanupSessions users_cleanupSessions
  by (rule filter_product_filter) (use assms in auto)

lemma snd_validateSession:
  "snd (validateSession now d tok) =
     (case session_rows now d tok of
        [] \<Rightarrow> None
      | (s, u) # _ \<Rightarrow>
          if \<not> u_is_active u then None
          else Some \<lparr>si_id = s_id s, si_userId = s_user_id s,
                     si_username = u_username u, si_expiresAt = s_expires_at s\<rparr>)"
  by (simp add: validateSession_def split: list.split prod.split)

section \<open>Claims about sessions\<close>

text \<open>
  Claim C1. A session that is marked invalid or whose expiry time is not after the current
  time never validates again: \<open>validateSession\<close> with its token returns \<open>null\<close> (no
  principal) at that time and at every later one, after any further calls of the session
  functions (sweeps by \<open>cleanupSessions\<close> included) that do not hand out the same token
  again. In particular this holds from the moment \<open>invalidateSession\<close> (the logout) has
  returned for the token. Tokens are taken to be unique in the table, as \<open>uuidv4()\<close>
  makes them.
\<close>

theorem dead_session_never_validates:
  assumes "now \<le> now'" and "\<forall>c\<in>set calls. issued_token c \<noteq> Some tok"
  shows "(s \<in> set (sessions d) \<and> distinct (map s_token (sessions d)) \<and> s_token s = tok
            \<and> (\<not> s_is_valid s \<or> s_expires_at s \<le> now)
          \<longrightarrow> snd (validateSession now' (run_all calls d) tok) = None)
       \<and> snd (validateSession now' (run_all calls (invalidateSession d tok)) tok) = None"
proof (intro conjI impI)
  assume h: "s \<in> set (sessions d) \<and> distinct (map s_token (sessions d)) \<and> s_token s = tok
            \<and> (\<not> s_is_valid s \<or> s_expires_at s \<le> now)"
  then have "dead_token now d tok"
    using dead_token_of_row[of s d now] by blast
  then have "dead_token now (run_all calls d) tok"
    using assms(2) by (rule dead_token_run_all)
  then have "dead_token now' (run_all calls d) tok"
    using assms(1) by (rule dead_token_mono)
  then show "snd (validateSession now' (run_all calls d) tok) = None"
    by (simp add: validateSession_dead_token)
next
  have "dead_token now' (invalidateSession d tok) tok"
    by (rule dead_token_invalidateSession_same)
  then have "dead_token now' (run_all calls (invalidateSession d tok)) tok"
    using assms(2) by (rule dead_token_run_all)
  then show "snd (validateSession now' (run_all calls (invalidateSession d tok)) tok) = None"
    by (simp add: validateSession_dead_token)
qed

theorem dead_session_never_validates_witness:
  "session_a \<in> set (sessions db0) \<and> s_expires_at session_a \<le> 1000
   \<and> snd (validateSession 700 db0 ''tok-a'') \<noteq> None
   \<and> snd (validateSession 1500
        (run_all [CreateSession env0 1 ''10.0.0.1'' ''curl'', DeactivateUser 2] db0) ''tok-a'')
       = None
   \<and> snd (validateSession 1500
        (run_all [CreateSession env0 1 ''10.0.0.1'' ''curl'', DeactivateUser 2]
           (invalidateSession db0 ''tok-a'')) ''tok-a'') = None"
proof -
  let ?calls = "[CreateSession env0 1 ''10.0.0.1'' ''curl'', DeactivateUser 2]"
  have fresh: "\<forall>c\<in>set ?calls. issued_token c \<noteq> Some ''tok-a''"
    by (simp add: env0_def)
  have row: "session_a \<in> set (sessions db0) \<and> distinct (map s_token (sessions db0))
       \<and> s_token session_a = ''tok-a''
       \<and> (\<not> s_is_valid session_a \<or> s_expires_at session_a \<le> 1000)"
    by (simp add: db0_def session_a_def session_b_def)
  have le: "(1000::timestamp) \<le> 1500"
    by simp
  have exp: "s_expires_at session_a \<le> 1000"
    by (simp add: session_a_def)
  have live: "snd (validateSession 700 db0 ''tok-a'') \<noteq> None"
    by (simp add: validateSession_def session_rows_def db0_def session_a_def session_b_def
          alice_def bob_def)
  have dead: "(snd (validateSession 1500 (run_all ?calls db0) ''tok-a'') = None)
       \<and> snd (validateSession 1500 (run_all ?calls (invalidateSession db0 ''tok-a'')) ''tok-a'')
           = None"
    using dead_session_never_validates[of 1000 1500 ?calls "''tok-a''" session_a db0, OF le fresh]
      row by blast
  show ?thesis
    using row exp live dead by blast
qed

text \<open>
  Claim C4. Expiry is decided by the read, not by the sweep. For a valid session of an
  active user, whatever its expiry time (its issue time plus its time to live),
  \<open>validateSession\<close> one millisecond after the expiry time returns \<open>null\<close> although the
  row is still in the table, and one millisecond before it returns the session. A sweep
  by \<open>cleanupSessions\<close> that ran no later than the read never changes what the read
  returns, for any token.
\<close>

theorem expiry_checked_at_read_time:
  assumes "s \<in> set (sessions d)" and "distinct (map s_token (sessions d))"
    and "s_is_valid s"
    and "u \<in> set (users d)" and "u_id u = s_user_id s" and "distinct (map u_id (users d))"
    and "u_is_active u"
  shows "validateSession (s_expires_at s + 1) d (s_token s) = (d, None)
       \<and> validateSession (s_expires_at s - 1) d (s_token s) =
           (d, Some \<lparr>si_id = s_id s, si_userId = s_user_id s,
                      si_username = u_username u, si_expiresAt = s_expires_at s\<rparr>)
       \<and> (\<forall>sweep now tok. sweep \<le> now \<longrightarrow>
             snd (validateSession now (fst (cleanupSessions sweep d)) tok)
               = snd (validateSession now d tok))"
proof (intro conjI allI impI)
  have "dead_token (s_expires_at s + 1) d (s_token s)"
    using assms(1,2) by (rule dead_token_of_row) simp
  then show "validateSession (s_expires_at s + 1) d (s_token s) = (d, None)"
    by (rule validateSession_dead_token)
next
  have "session_rows (s_expires_at s - 1) d (s_token s) = [(s, u)]"
    using assms(1,2,4,5,6,3) by (rule session_rows_single) simp
  then show "validateSession (s_expires_at s - 1) d (s_token s) =
           (d, Some \<lparr>si_id = s_id s, si_userId = s_user_id s,
                      si_username = u_username u, si_expiresAt = s_expires_at s\<rparr>)"
    using assms(7) by (simp add: validateSession_def)
next
  fix sweep now :: timestamp and tok
  assume "sweep \<le> now"
  then show "snd (validateSession now (fst (cleanupSessions sweep d)) tok)
               = snd (validateSession now d tok)"
    by (simp only: snd_validateSession session_rows_cleanupSessions)
qed

theorem expiry_checked_at_read_time_witness:
  "session_a \<in> set (sessions db0) \<and> s_expires_at session_a = 1000
   \<and> validateSession 1001 db0 ''tok-a'' = (db0, None)
   \<and> validateSession 999 db0 ''tok-a'' =
        (db0, Some \<lparr>si_id = ''row-a'', si_userId = 1, si_username = ''alice'',
                     si_expiresAt = 1000\<rparr>)
   \<and> snd (validateSession 999 (fst (cleanupSessions 998 db0)) ''tok-a'')
        = snd (validateSession 999 db0 ''tok-a'')"
proof -
  have s: "session_a \<in> set (sessions db0)" and ds: "distinct (map s_token (sessions db0))"
    and v: "s_is_valid session_a"
    and u: "alice \<in> set (users db0)" and id: "u_id alice = s_user_id session_a"
    and du: "distinct (map u_id (users db0))" and act: "u_is_active alice"
    by (simp_all add: db0_def session_a_def session_b_def alice_def bob_def)
  have le: "(998::timestamp) \<le> 999" by simp
  show ?thesis
    using expiry_checked_at_read_time[OF s ds v u id du act] s le
    by (simp add: session_a_def alice_def)
qed






text \<open>
  Claim C10. When the user owning a session is inactive, \<open>validateSession\<close> on the
  session's token returns \<open>null\<close>. If the session was still valid and unexpired, the call
  is the one that writes: the database it leaves is \<open>invalidateSession\<close>'s; and whenever
  the session is unexpired, every row of the token is marked invalid after the call (an
  expired session is rejected by the query before the user is looked at, and nothing is
  written). In every case the token keeps failing at every later time whatever the users
  table then holds, so also once the user's active flag is set back to true.
\<close>

theorem inactive_user_session_stays_dead:
  assumes "s \<in> set (sessions d)" and "distinct (map s_token (sessions d))"
    and "u \<in> set (users d)" and "u_id u = s_user_id s" and "distinct (map u_id (users d))"
    and "\<not> u_is_active u"
    and "now \<le> now'"
  shows "snd (validateSession now d (s_token s)) = None
       \<and> (s_is_valid s \<and> now < s_expires_at s \<longrightarrow>
            fst (validateSession now d (s_token s)) = invalidateSession d (s_token s))
       \<and> (now < s_expires_at s \<longrightarrow>
            (\<forall>s'\<in>set (sessions (fst (validateSession now d (s_token s)))).
                  s_token s' = s_token s \<longrightarrow> \<not> s_is_valid s'))
       \<and> validateSession now' ((fst (validateSession now d (s_token s)))\<lparr>users := us\<rparr>) (s_token s)
           = ((fst (validateSession now d (s_token s)))\<lparr>users := us\<rparr>, None)"
proof -
  let ?tok = "s_token s"
  let ?d' = "fst (validateSession now d ?tok)"
  show ?thesis
  proof (cases "s_is_valid s \<and> now < s_expires_at s")
    case True
    then have rows: "session_rows now d ?tok = [(s, u)]"
      using assms(1-5) by (intro session_rows_single) simp_all
    then have v: "validateSession now d ?tok = (invalidateSession d ?tok, None)"
      using assms(6) by (simp add: validateSession_def)
    have inv: "\<forall>s'\<in>set (sessions (invalidateSession d ?tok)). s_token s' = ?tok \<longrightarrow> \<not> s_is_valid s'"
      by (auto simp: sessions_invalidateSession)
    have "dead_token now' (invalidateSession d ?tok) ?tok"
      by (rule dead_token_invalidateSession_same)
    then have "dead_token now' ((invalidateSession d ?tok)\<lparr>users := us\<rparr>) ?tok"
      by (simp add: dead_token_def)
    then have "validateSession now' ((invalidateSession d ?tok)\<lparr>users := us\<rparr>) ?tok
                 = ((invalidateSession d ?tok)\<lparr>users := us\<rparr>, None)"
      by (rule validateSession_dead_token)
    with v inv show ?thesis by simp
  next
    case False
    then have nl: "\<not> s_is_valid s \<or> s_expires_at s \<le> now" by auto
    with assms(1,2) have dead: "dead_token now d ?tok"
      by (rule dead_token_of_row)
    then have v: "validateSession now d ?tok = (d, None)"
      by (rule validateSession_dead_token)
    have only: "s' = s" if "s' \<in> set (sessions d)" "s_token s' = ?tok" for s'
      using that assms(1,2) by (auto simp: distinct_map dest: inj_onD)
    have marked: "\<forall>s'\<in>set (sessions d). s_token s' = ?tok \<longrightarrow> \<not> s_is_valid s'"
      if "now < s_expires_at s"
      using that nl only by auto
    have "dead_token now' d ?tok"
      using dead assms(7) by (rule dead_token_mono)
    then have "dead_token now' (d\<lparr>users := us\<rparr>) ?tok"
      by (simp add: dead_token_def)
    then have "validateSession now' (d\<lparr>users := us\<rparr>) ?tok = (d\<lparr>users := us\<rparr>, None)"
      by (rule validateSession_dead_token)
    with v False marked show ?thesis by auto
  qed
qed

theorem inactive_user_session_stays_dead_witness:
  "session_b \<in> set (sessions db0) \<and> bob \<in> set (users db0) \<and> u_id bob = s_user_id session_b
   \<and> s_is_valid session_b
   \<and> snd (validateSession 700 db0 ''tok-b'') = None
   \<and> fst (validateSession 700 db0 ''tok-b'') = invalidateSession db0 ''tok-b''
   \<and> validateSession 800
        ((fst (validateSession 700 db0 ''tok-b''))\<lparr>users := [alice, bob\<lparr>u_is_active := True\<rparr>]\<rparr>)
        ''tok-b''
       = ((fst (validateSession 700 db0 ''tok-b''))\<lparr>users := [alice, bob\<lparr>u_is_active := True\<rparr>]\<rparr>,
          None)
   \<and> snd (validateSession 800 (db0\<lparr>users := [alice, bob\<lparr>u_is_active := True\<rparr>]\<rparr>) ''tok-b'')
       \<noteq> None"
proof -
  have s: "session_b \<in> set (sessions db0)" and ds: "distinct (map s_token (sessions db0))"
    and u: "bob \<in> set (users db0)" and id: "u_id bob = s_user_id session_b"
    and du: "distinct (map u_id (users db0))" and act: "\<not> u_is_active bob"
    and live: "s_is_valid session_b" "700 < s_expires_at session_b"
    and tok: "s_token session_b = ''tok-b''"
    by (simp_all add: db0_def session_a_def session_b_def alice_def bob_def)
  have le: "(700::timestamp) \<le> 800" by simp
  have restored:
    "snd (validateSession 800 (db0\<lparr>users := [alice, bob\<lparr>u_is_active := True\<rparr>]\<rparr>) ''tok-b'')
       \<noteq> None"
    by (simp add: validateSession_def session_rows_def db0_def session_a_def session_b_def
          alice_def bob_def)
  note main = inactive_user_session_stays_dead[OF s ds u id du act le,
      of "[alice, bob\<lparr>u_is_active := True\<rparr>]", unfolded tok]
  show ?thesis
    using main s u id live restored by blast
qed

section \<open>Claims about role checks\<close>

lemma authorize_Next_iff:
  "authorize requiredRoles req_user = Next \<longleftrightarrow>
     (\<exists>user rs. req_user = Some user \<and> p_roles user = Some rs
        \<and> set requiredRoles \<inter> set rs \<noteq> {})"
proof (cases req_user)
  case None
  then show ?thesis by (simp add: authorize_def)
next
  case (Some user)
  show ?thesis
  proof (cases "p_roles user")
    case None
    with Some show ?thesis by (simp add: authorize_def list_ex_iff)
  next
    case (Some rs)
    with \<open>req_user = Some user\<close> show ?thesis
      by (auto simp: authorize_def list_ex_iff)
  qed
qed

lemma hasRole_Next_iff:
  "hasRole role req_session = Next \<longleftrightarrow>
     (\<exists>sess. req_session = Some sess \<and> \<not> falsy_id (hs_userId sess)
        \<and> (hs_role sess = Some role \<or> hs_role sess = Some ''admin''))"
  by (cases req_session) (auto simp: hasRole_def)

text \<open>
  The specification's policy and \<open>authorize\<close> disagree. With an empty requirement the
  policy allows and \<open>authorize\<close> answers 403; with \<open>viewer\<close> granting \<open>read\<close> the
  policy allows a viewer to \<open>read\<close> and \<open>authorize\<close>, which knows role names only,
  answers 403; and where the policy wants every required item covered, \<open>authorize\<close>
  lets a principal through that holds one of two required roles.
\<close>

theorem authorize_superset_counterexample:
  "spec_authorize viewer_grants [''viewer''] []
   \<and> authorize [] (Some viewer_principal) = Reply 403 ''Insufficient permissions''
   \<and> spec_authorize viewer_grants [''viewer''] [''read'']
   \<and> authorize [''read''] (Some viewer_principal) = Reply 403 ''Insufficient permissions''
   \<and> \<not> spec_authorize [(''viewer'', [''viewer'']), (''editor'', [''editor''])]
          [''viewer''] [''viewer'', ''editor'']
   \<and> authorize [''viewer'', ''editor''] (Some viewer_principal) = Next"
  by (simp add: spec_authorize_def authorize_def viewer_grants_def viewer_principal_def)

text \<open>
  Claim C2, as the code has it. \<open>authorize(requiredRoles)\<close> calls \<open>next()\<close> exactly when
  the request has a principal and at least one of the required role names is among the
  principal's roles; without a principal it answers 401, otherwise 403. There is no table
  from roles to permissions. Access is denied by default: an empty or missing role list
  and an empty required list never pass. \<open>hasRole(role)\<close> of the session-cookie server
  passes exactly when the session has a user id and its single role is the required one
  or \<open>admin\<close>.
\<close>

theorem authorize_any_required_role:
  "(authorize requiredRoles req_user = Next \<longleftrightarrow>
      (\<exists>user rs. req_user = Some user \<and> p_roles user = Some rs
         \<and> set requiredRoles \<inter> set rs \<noteq> {}))
   \<and> (authorize requiredRoles req_user = Reply 401 ''Authentication required''
        \<longleftrightarrow> req_user = None)
   \<and> (authorize requiredRoles req_user = Reply 403 ''Insufficient permissions''
        \<longleftrightarrow> req_user \<noteq> None \<and> authorize requiredRoles req_user \<noteq> Next)
   \<and> authorize requiredRoles (Some (user\<lparr>p_roles := Some []\<rparr>))
        = Reply 403 ''Insufficient permissions''
   \<and> authorize requiredRoles (Some (user\<lparr>p_roles := None\<rparr>))
        = Reply 403 ''Insufficient permissions''
   \<and> authorize [] (Some user) = Reply 403 ''Insufficient permissions''
   \<and> (hasRole role req_session = Next \<longleftrightarrow>
        (\<exists>sess. req_session = Some sess \<and> \<not> falsy_id (hs_userId sess)
           \<and> (hs_role sess = Some role \<or> hs_role sess = Some ''admin'')))"
proof (intro conjI)
  show "authorize requiredRoles req_user = Next \<longleftrightarrow>
      (\<exists>user rs. req_user = Some user \<and> p_roles user = Some rs
         \<and> set requiredRoles \<inter> set rs \<noteq> {})"
    by (rule authorize_Next_iff)
  show "authorize requiredRoles req_user = Reply 401 ''Authentication required''
        \<longleftrightarrow> req_user = None"
    by (simp add: authorize_def Let_def split: option.split)
  show "authorize requiredRoles req_user = Reply 403 ''Insufficient permissions''
        \<longleftrightarrow> req_user \<noteq> None \<and> authorize requiredRoles req_user \<noteq> Next"
    by (simp add: authorize_def Let_def split: option.split)
  show "authorize requiredRoles (Some (user\<lparr>p_roles := Some []\<rparr>))
        = Reply 403 ''Insufficient permissions''"
    by (simp add: authorize_def list_ex_iff)
  show "authorize requiredRoles (Some (user\<lparr>p_roles := None\<rparr>))
        = Reply 403 ''Insufficient permissions''"
    by (simp add: authorize_def list_ex_iff)
  show "authorize [] (Some user) = Reply 403 ''Insufficient permissions''"
    by (simp add: authorize_def)
  show "hasRole role req_session = Next \<longleftrightarrow>
        (\<exists>sess. req_session = Some sess \<and> \<not> falsy_id (hs_userId sess)
           \<and> (hs_role sess = Some role \<or> hs_role sess = Some ''admin''))"
    by (rule hasRole_Next_iff)
qed

theorem authorize_any_required_role_witness:
  "authorize [''write''] (Some viewer_principal) = Reply 403 ''Insufficient permissions''
   \<and> authorize [''viewer''] (Some viewer_principal) = Next
   \<and> authorize [''admin'', ''viewer''] (Some viewer_principal) = Next
   \<and> authorize [''viewer''] None = Reply 401 ''Authentication required''"
proof -
  have r: "p_roles viewer_principal = Some [''viewer'']"
    by (simp add: viewer_principal_def)
  have "authorize [''write''] (Some viewer_principal) \<noteq> Next"
    using authorize_any_required_role[of "[''write'']" "Some viewer_principal"] r by simp
  then have a: "authorize [''write''] (Some viewer_principal)
                  = Reply 403 ''Insufficient permissions''"
    using authorize_any_required_role[of "[''write'']" "Some viewer_principal"] by simp
  have b: "authorize [''viewer''] (Some viewer_principal) = Next"
    using authorize_any_required_role[of "[''viewer'']" "Some viewer_principal"] r by simp
  have c: "authorize [''admin'', ''viewer''] (Some viewer_principal) = Next"
    using authorize_any_required_role[of "[''admin'', ''viewer'']" "Some viewer_principal"] r
    by simp
  have d: "authorize [''viewer''] None = Reply 401 ''Authentication required''"
    using authorize_any_required_role[of "[''viewer'']" None] by simp
  from a b c d show ?thesis by blast
qed

section \<open>Claims about the login flow\<close>

lemma fst_verifyUser_None_iff:
  "fst (verifyUser compare d email password) = None \<longleftrightarrow>
     (find (\<lambda>u. u_email u = email) (users d) = None
      \<or> (\<exists>user. find (\<lambda>u. u_email u = email) (users d) = Some user
            \<and> \<not> compare password (u_password_hash user)))"
  by (cases "find (\<lambda>u. u_email u = email) (users d)") (simp_all add: verifyUser_def Let_def)

lemma snd_verifyUser:
  "snd (verifyUser compare d email password) =
     (case find (\<lambda>u. u_email u = email) (users d) of
        None \<Rightarrow> []
      | Some user \<Rightarrow> [BcryptCompare password (u_password_hash user)])"
  by (cases "find (\<lambda>u. u_email u = email) (users d)") (simp_all add: verifyUser_def Let_def)

lemma verifyUser_Some_row:
  assumes "fst (verifyUser compare d email password) = Some user"
  shows "\<exists>u\<in>set (users d). u_id u = us_id user"
proof (cases "find (\<lambda>u. u_email u = email) (users d)")
  case None
  with assms show ?thesis by (simp add: verifyUser_def)
next
  case (Some u)
  then have "u \<in> set (users d)"
    by (auto simp: find_Some_iff)
  moreover have "us_id user = u_id u"
    using assms Some by (auto simp: verifyUser_def Let_def split: if_splits)
  ultimately show ?thesis by auto
qed

lemma getUserWithRoles_Some:
  assumes "\<exists>u\<in>set (users d). u_id u = userId"
  shows "\<exists>uw. getUserWithRoles d userId = Some uw"
proof (cases "find (\<lambda>u. u_id u = userId) (users d)")
  case None
  with assms show ?thesis by (auto simp: find_None_iff)
next
  case (Some u)
  then show ?thesis by (simp add: getUserWithRoles_def)
qed

lemma login_rejected_user:
  assumes "fst (verifyUser (e_compare ev) d email password) = None"
  shows "snd (login ev d email password ip ua) =
           (snd (verifyUser (e_compare ev) d email password),
            if e_audit_ok ev then Inr (LoginFailure ''Invalid credentials'') else Inl QueryError)"
proof -
  obtain calls where v: "verifyUser (e_compare ev) d email password = (None, calls)"
    using assms by (cases "verifyUser (e_compare ev) d email password") simp
  show ?thesis
  proof (cases "e_audit_ok ev")
    case True
    then show ?thesis using v by (simp add: login_def logAuthEvent_def)
  next
    case False
    then show ?thesis using v by (simp add: login_def logAuthEvent_def)
  qed
qed

lemma login_accepted_user:
  assumes "fst (verifyUser (e_compare ev) d email password) = Some user"
  shows "\<exists>uw. getUserWithRoles d (us_id user) = Some uw
          \<and> snd (login ev d email password ip ua) =
              (snd (verifyUser (e_compare ev) d email password),
               if e_audit_ok ev
               then Inr (LoginSuccess uw (generateToken uw)
                           \<lparr>sh_token = e_uuidv4 ev, sh_expiresAt = e_now ev + 86400000\<rparr>)
               else Inl QueryError)"
proof -
  obtain calls where v: "verifyUser (e_compare ev) d email password = (Some user, calls)"
    using assms by (cases "verifyUser (e_compare ev) d email password") simp
  obtain uw where uw: "getUserWithRoles d (us_id user) = Some uw"
    using getUserWithRoles_Some[OF verifyUser_Some_row[OF assms]] by blast
  have "snd (login ev d email password ip ua) =
              (calls,
               if e_audit_ok ev
               then Inr (LoginSuccess uw (generateToken uw)
                           \<lparr>sh_token = e_uuidv4 ev, sh_expiresAt = e_now ev + 86400000\<rparr>)
               else Inl QueryError)"
  proof (cases "e_audit_ok ev")
    case True
    then show ?thesis using v uw
      by (simp add: login_def logAuthEvent_def createSession_def Let_def)
  next
    case False
    then show ?thesis using v uw
      by (simp add: login_def logAuthEvent_def createSession_def Let_def)
  qed
  with uw v show ?thesis by simp
qed

lemma login_accepted_sessions:
  assumes "fst (verifyUser (e_compare ev) d email password) = Some user"
  shows "sessions (fst (login ev d email password ip ua))
           = sessions (fst (createSession ev d (us_id user) ip ua))"
proof -
  obtain calls where v: "verifyUser (e_compare ev) d email password = (Some user, calls)"
    using assms by (cases "verifyUser (e_compare ev) d email password") simp
  obtain uw where uw: "getUserWithRoles d (us_id user) = Some uw"
    using getUserWithRoles_Some[OF verifyUser_Some_row[OF assms]] by blast
  show ?thesis
  proof (cases "e_audit_ok ev")
    case True
    then show ?thesis using v uw
      by (simp add: login_def logAuthEvent_def createSession_def Let_def)
  next
    case False
    then show ?thesis using v uw
      by (simp add: login_def logAuthEvent_def createSession_def Let_def)
  qed
qed

lemma login_accepted_users:
  assumes "fst (verifyUser (e_compare ev) d email password) = Some user"
  shows "users (fst (login ev d email password ip ua))
           = map (\<lambda>u. if u_id u = us_id user then u\<lparr>u_last_login := Some (e_now ev)\<rparr> else u)
               (users d)"
proof -
  obtain calls where v: "verifyUser (e_compare ev) d email password = (Some user, calls)"
    using assms by (cases "verifyUser (e_compare ev) d email password") simp
  obtain uw where uw: "getUserWithRoles d (us_id user) = Some uw"
    using getUserWithRoles_Some[OF verifyUser_Some_row[OF assms]] by blast
  show ?thesis
  proof (cases "e_audit_ok ev")
    case True
    then show ?thesis using v uw
      by (simp add: login_def logAuthEvent_def createSession_def Let_def)
  next
    case False
    then show ?thesis using v uw
      by (simp add: login_def logAuthEvent_def createSession_def Let_def)
  qed
qed

lemma login_bcrypt_calls:
  "fst (snd (login ev d email password ip ua)) = snd (verifyUser (e_compare ev) d email password)"
proof (cases "fst (verifyUser (e_compare ev) d email password)")
  case None
  then show ?thesis by (simp add: login_rejected_user)
next
  case (Some user)
  then show ?thesis using login_accepted_user[OF Some, of ip ua] by auto
qed

lemma find_append_new:
  assumes "\<forall>x\<in>set xs. \<not> P x" and "P y"
  shows "find P (xs @ [y]) = Some y"
  using assms by (induction xs) simp_all

text \<open>
  No dummy hash is verified. For an email no user has, \<open>verifyUser\<close>, \<open>login\<close> and the
  cookie controller make no \<open>bcrypt.compare\<close> call at all, while a wrong password for
  an existing user costs one. The cookie controller also answers an inactive account
  with its own message before it looks at the password.
\<close>

theorem dummy_hash_counterexample:
  "fst (verifyUser toy_compare db0 ''nobody@example.com'' ''Secret123!'') = None
   \<and> snd (verifyUser toy_compare db0 ''nobody@example.com'' ''Secret123!'') = []
   \<and> fst (verifyUser toy_compare db0 ''alice@example.com'' ''wrong'') = None
   \<and> snd (verifyUser toy_compare db0 ''alice@example.com'' ''wrong'')
        = [BcryptCompare ''wrong'' ''hash-of-Secret123!'']
   \<and> fst (snd (login env0 db0 ''nobody@example.com'' ''Secret123!'' ''10.0.0.9'' ''curl'')) = []
   \<and> snd (login_controller accounts_by_email toy_compare \<lparr>hs_userId = None, hs_role = None\<rparr>
             (Some ''nobody@example.com'') (Some ''wrong''))
        = ([], LoginReply 401 ''Invalid credentials'')
   \<and> snd (login_controller accounts_by_email toy_compare \<lparr>hs_userId = None, hs_role = None\<rparr>
             (Some ''dave@example.com'') (Some ''wrong''))
        = ([], LoginReply 401 ''Account is inactive'')"
  by (simp add: verifyUser_def login_def logAuthEvent_def login_controller_def
        accounts_by_email_def db0_def alice_def bob_def carol_def dave_def env0_def
        toy_compare_def)

text \<open>
  Claim C3, as the code has it. \<open>verifyUser\<close> returns \<open>null\<close> exactly when no user has the
  email or the password does not match, and what \<open>login\<close> then answers does not depend on
  which of the two it was: it is the object
  \<open>{success: false, message: 'Invalid credentials'}\<close> when the audit insert succeeds and
  the rejection with the query's error when it fails, so two failed attempts in the same
  outside world get the same answer.
  \<open>bcrypt.compare\<close> is called once when a user row was found and not at all otherwise.
  The cookie controller answers 401 \<open>Invalid credentials\<close> both for an unknown email and
  for a wrong password of an active account, again without a \<open>bcrypt\<close> call in the first
  case; an inactive account gets 401 \<open>Account is inactive\<close>.
\<close>

theorem failed_login_is_generic:
  "(fst (verifyUser (e_compare ev) d email password) = None \<longleftrightarrow>
      (find (\<lambda>u. u_email u = email) (users d) = None
       \<or> (\<exists>user. find (\<lambda>u. u_email u = email) (users d) = Some user
             \<and> \<not> e_compare ev password (u_password_hash user))))
   \<and> (fst (verifyUser (e_compare ev) d email password) = None
        \<longrightarrow> snd (snd (login ev d email password ip ua))
              = (if e_audit_ok ev then Inr (LoginFailure ''Invalid credentials'')
                 else Inl QueryError))
   \<and> (fst (verifyUser (e_compare ev) d email password) = None
          \<and> fst (verifyUser (e_compare ev) d' email' password') = None
        \<longrightarrow> snd (snd (login ev d email password ip ua))
              = snd (snd (login ev d' email' password' ip' ua')))
   \<and> fst (snd (login ev d email password ip ua))
        = (case find (\<lambda>u. u_email u = email) (users d) of
             None \<Rightarrow> []
           | Some user \<Rightarrow> [BcryptCompare password (u_password_hash user)])
   \<and> (body_email \<noteq> [] \<and> body_password \<noteq> [] \<and> findByEmail body_email = Inr None
        \<longrightarrow> snd (login_controller findByEmail compare sess (Some body_email) (Some body_password))
              = ([], LoginReply 401 ''Invalid credentials''))
   \<and> (body_email \<noteq> [] \<and> body_password \<noteq> [] \<and> findByEmail body_email = Inr (Some account)
          \<and> a_is_active account \<and> \<not> compare body_password (a_password_hash account)
        \<longrightarrow> snd (login_controller findByEmail compare sess (Some body_email) (Some body_password))
              = ([BcryptCompare body_password (a_password_hash account)],
                 LoginReply 401 ''Invalid credentials''))
   \<and> (body_email \<noteq> [] \<and> body_password \<noteq> [] \<and> findByEmail body_email = Inr (Some account)
          \<and> \<not> a_is_active account
        \<longrightarrow> snd (login_controller findByEmail compare sess (Some body_email) (Some body_password))
              = ([], LoginReply 401 ''Account is inactive''))"
proof (intro conjI impI)
  show "fst (verifyUser (e_compare ev) d email password) = None \<longleftrightarrow>
      (find (\<lambda>u. u_email u = email) (users d) = None
       \<or> (\<exists>user. find (\<lambda>u. u_email u = email) (users d) = Some user
             \<and> \<not> e_compare ev password (u_password_hash user)))"
    by (rule fst_verifyUser_None_iff)
next
  assume "fst (verifyUser (e_compare ev) d email password) = None"
  then show "snd (snd (login ev d email password ip ua))
              = (if e_audit_ok ev then Inr (LoginFailure ''Invalid credentials'')
                 else Inl QueryError)"
    by (simp add: login_rejected_user)
next
  assume "fst (verifyUser (e_compare ev) d email password) = None
          \<and> fst (verifyUser (e_compare ev) d' email' password') = None"
  then show "snd (snd (login ev d email password ip ua))
              = snd (snd (login ev d' email' password' ip' ua'))"
    by (simp add: login_rejected_user)
next
  show "fst (snd (login ev d email password ip ua))
        = (case find (\<lambda>u. u_email u = email) (users d) of
             None \<Rightarrow> []
           | Some user \<Rightarrow> [BcryptCompare password (u_password_hash user)])"
    by (simp only: login_bcrypt_calls snd_verifyUser)
next
  assume "body_email \<noteq> [] \<and> body_password \<noteq> [] \<and> findByEmail body_email = Inr None"
  then show "snd (login_controller findByEmail compare sess (Some body_email) (Some body_password))
              = ([], LoginReply 401 ''Invalid credentials'')"
    by (simp add: login_controller_def)
next
  assume "body_email \<noteq> [] \<and> body_password \<noteq> [] \<and> findByEmail body_email = Inr (Some account)
          \<and> a_is_active account \<and> \<not> compare body_password (a_password_hash account)"
  then show "snd (login_controller findByEmail compare sess (Some body_email) (Some body_password))
              = ([BcryptCompare body_password (a_password_hash account)],
                 LoginReply 401 ''Invalid credentials'')"
    by (simp add: login_controller_def)
next
  assume "body_email \<noteq> [] \<and> body_password \<noteq> [] \<and> findByEmail body_email = Inr (Some account)
          \<and> \<not> a_is_active account"
  then show "snd (login_controller findByEmail compare sess (Some body_email) (Some body_password))
              = ([], LoginReply 401 ''Account is inactive'')"
    by (simp add: login_controller_def)
qed

theorem failed_login_is_generic_witness:
  "fst (verifyUser toy_compare db0 ''nobody@example.com'' ''wrong'') = None
   \<and> fst (verifyUser toy_compare db0 ''alice@example.com'' ''wrong'') = None
   \<and> snd (snd (login env0 db0 ''nobody@example.com'' ''wrong'' ''10.0.0.9'' ''curl''))
       = Inr (LoginFailure ''Invalid credentials'')
   \<and> snd (snd (login env0 db0 ''alice@example.com'' ''wrong'' ''10.0.0.9'' ''curl''))
       = Inr (LoginFailure ''Invalid credentials'')
   \<and> snd (snd (login env_audit_down db0 ''nobody@example.com'' ''wrong'' ''10.0.0.9'' ''curl''))
       = Inl QueryError
   \<and> snd (snd (login env_audit_down db0 ''nobody@example.com'' ''wrong'' ''10.0.0.9'' ''curl''))
       = snd (snd (login env_audit_down db0 ''alice@example.com'' ''wrong'' ''10.0.0.9'' ''curl''))
   \<and> fst (snd (login env0 db0 ''nobody@example.com'' ''wrong'' ''10.0.0.9'' ''curl'')) = []
   \<and> fst (snd (login env0 db0 ''alice@example.com'' ''wrong'' ''10.0.0.9'' ''curl''))
       = [BcryptCompare ''wrong'' ''hash-of-Secret123!'']
   \<and> snd (login_controller accounts_by_email toy_compare \<lparr>hs_userId = None, hs_role = None\<rparr>
            (Some ''nobody@example.com'') (Some ''wrong''))
       = ([], LoginReply 401 ''Invalid credentials'')
   \<and> snd (login_controller accounts_by_email toy_compare \<lparr>hs_userId = None, hs_role = None\<rparr>
            (Some ''carol@example.com'') (Some ''wrong''))
       = ([BcryptCompare ''wrong'' ''hash-of-Secret123!''], LoginReply 401 ''Invalid credentials'')"
proof -
  let ?s0 = "\<lparr>hs_userId = None, hs_role = None\<rparr>"
  have f1: "find (\<lambda>u. u_email u = ''nobody@example.com'') (users db0) = None"
    and f2: "find (\<lambda>u. u_email u = ''alice@example.com'') (users db0) = Some alice"
    and hash: "u_password_hash alice = ''hash-of-Secret123!''"
    by (simp_all add: db0_def alice_def bob_def)
  have ok: "e_audit_ok env0" and down: "\<not> e_audit_ok env_audit_down"
    and cmp: "e_compare env0 = toy_compare" "e_compare env_audit_down = toy_compare"
    by (simp_all add: env0_def env_audit_down_def)
  have v1: "fst (verifyUser toy_compare db0 ''nobody@example.com'' ''wrong'') = None"
    and v2: "fst (verifyUser toy_compare db0 ''alice@example.com'' ''wrong'') = None"
    by (simp_all add: verifyUser_def db0_def alice_def bob_def toy_compare_def)
  have a1: "''nobody@example.com'' \<noteq> [] \<and> ''wrong'' \<noteq> []
              \<and> accounts_by_email ''nobody@example.com'' = Inr None"
    and a2: "''carol@example.com'' \<noteq> [] \<and> ''wrong'' \<noteq> []
              \<and> accounts_by_email ''carol@example.com'' = Inr (Some carol)
              \<and> a_is_active carol \<and> \<not> toy_compare ''wrong'' (a_password_hash carol)"
    and a3: "a_password_hash carol = ''hash-of-Secret123!''"
    by (simp_all add: accounts_by_email_def carol_def dave_def toy_compare_def)
  note g1 = failed_login_is_generic[where ev = env0 and d = db0
      and email = "''nobody@example.com''" and password = "''wrong''"
      and ip = "''10.0.0.9''" and ua = "''curl''"
      and d' = db0 and email' = "''alice@example.com''" and password' = "''wrong''"
      and ip' = "''10.0.0.9''" and ua' = "''curl''"
      and body_email = "''nobody@example.com''" and body_password = "''wrong''"
      and findByEmail = accounts_by_email and compare = toy_compare
      and sess = ?s0 and account = carol, unfolded cmp]
  note g2 = failed_login_is_generic[where ev = env0 and d = db0
      and email = "''alice@example.com''" and password = "''wrong''"
      and ip = "''10.0.0.9''" and ua = "''curl''"
      and d' = db0 and email' = "''nobody@example.com''" and password' = "''wrong''"
      and ip' = "''10.0.0.9''" and ua' = "''curl''"
      and body_email = "''carol@example.com''" and body_password = "''wrong''"
      and findByEmail = accounts_by_email and compare = toy_compare
      and sess = ?s0 and account = carol, unfolded cmp]
  note g3 = failed_login_is_generic[where ev = env_audit_down and d = db0
      and email = "''nobody@example.com''" and password = "''wrong''"
      and ip = "''10.0.0.9''" and ua = "''curl''"
      and d' = db0 and email' = "''alice@example.com''" and password' = "''wrong''"
      and ip' = "''10.0.0.9''" and ua' = "''curl''"
      and body_email = "''nobody@example.com''" and body_password = "''wrong''"
      and findByEmail = accounts_by_email and compare = toy_compare
      and sess = ?s0 and account = carol, unfolded cmp]
  have r1: "snd (snd (login env0 db0 ''nobody@example.com'' ''wrong'' ''10.0.0.9'' ''curl''))
              = (if e_audit_ok env0 then Inr (LoginFailure ''Invalid credentials'')
                 else Inl QueryError)"
    using g1 v1 by blast
  have r2: "snd (snd (login env0 db0 ''alice@example.com'' ''wrong'' ''10.0.0.9'' ''curl''))
              = (if e_audit_ok env0 then Inr (LoginFailure ''Invalid credentials'')
                 else Inl QueryError)"
    using g2 v2 by blast
  have r3: "snd (snd (login env_audit_down db0 ''nobody@example.com'' ''wrong'' ''10.0.0.9''
                        ''curl''))
              = (if e_audit_ok env_audit_down then Inr (LoginFailure ''Invalid credentials'')
                 else Inl QueryError)"
    using g3 v1 by blast
  have r4: "snd (snd (login env_audit_down db0 ''nobody@example.com'' ''wrong'' ''10.0.0.9''
                        ''curl''))
              = snd (snd (login env_audit_down db0 ''alice@example.com'' ''wrong'' ''10.0.0.9''
                            ''curl''))"
    using g3 v1 v2 by blast
  have c1: "fst (snd (login env0 db0 ''nobody@example.com'' ''wrong'' ''10.0.0.9'' ''curl''))
              = (case find (\<lambda>u. u_email u = ''nobody@example.com'') (users db0) of
                   None \<Rightarrow> []
                 | Some user \<Rightarrow> [BcryptCompare ''wrong'' (u_password_hash user)])"
    using g1 by blast
  have c2: "fst (snd (login env0 db0 ''alice@example.com'' ''wrong'' ''10.0.0.9'' ''curl''))
              = (case find (\<lambda>u. u_email u = ''alice@example.com'') (users db0) of
                   None \<Rightarrow> []
                 | Some user \<Rightarrow> [BcryptCompare ''wrong'' (u_password_hash user)])"
    using g2 by blast
  have k1: "snd (login_controller accounts_by_email toy_compare ?s0
                   (Some ''nobody@example.com'') (Some ''wrong''))
              = ([], LoginReply 401 ''Invalid credentials'')"
    using g1 a1 by blast
  have k2: "snd (login_controller accounts_by_email toy_compare ?s0
                   (Some ''carol@example.com'') (Some ''wrong''))
              = ([BcryptCompare ''wrong'' (a_password_hash carol)],
                 LoginReply 401 ''Invalid credentials'')"
    using g2 a2 by blast
  show ?thesis
    using v1 v2 r1 r2 r3 r4 c1 c2 k1 k2
    by (simp add: ok down f1 f2 hash a3)
qed

text \<open>
  A failed audit insert fails the login. With the same database and credentials, \<open>login\<close>
  returns its result when the insert succeeds and rejects with the query's error when it
  does not, on the failure path and on the success path alike.
\<close>

theorem audit_failure_counterexample:
  "snd (snd (login env_audit_down db0 ''alice@example.com'' ''wrong'' ''10.0.0.9'' ''curl''))
     = Inl QueryError
   \<and> snd (snd (login env0 db0 ''alice@example.com'' ''wrong'' ''10.0.0.9'' ''curl''))
     = Inr (LoginFailure ''Invalid credentials'')
   \<and> snd (snd (login env_audit_down db0 ''alice@example.com'' ''Secret123!'' ''10.0.0.9'' ''curl''))
     = Inl QueryError
   \<and> snd (snd (login env0 db0 ''alice@example.com'' ''Secret123!'' ''10.0.0.9'' ''curl''))
     = Inr (LoginSuccess
              \<lparr>uw_id = 1, uw_username = ''alice'', uw_email = ''alice@example.com'',
                uw_created_at = 0, uw_last_login = None, uw_is_active = True,
                uw_roles = [''viewer'']\<rparr>
              (JwtSign \<lparr>jp_id = 1, jp_username = ''alice'', jp_roles = [''viewer'']\<rparr> ''1h'')
              \<lparr>sh_token = ''tok-c'', sh_expiresAt = 86400500\<rparr>)"
  by (simp add: login_def verifyUser_def logAuthEvent_def getUserWithRoles_def
        generateToken_def createSession_def Let_def env_audit_down_def env0_def db0_def
        alice_def bob_def toy_compare_def)

text \<open>
  Claim C6, as the code has it. \<open>login\<close> awaits \<open>logAuthEvent\<close> and catches nothing: when
  the audit insert fails, \<open>login\<close> rejects with that error and returns no result; when it
  succeeds, \<open>login\<close> returns the failure object for bad credentials and the success
  object otherwise. On the success path the session row is inserted before the audit
  insert is attempted, so it is in the table either way.
\<close>

theorem login_awaits_audit_write:
  "(\<not> e_audit_ok ev \<longrightarrow> snd (snd (login ev d email password ip ua)) = Inl QueryError)
   \<and> (e_audit_ok ev \<and> fst (verifyUser (e_compare ev) d email password) = None
        \<longrightarrow> snd (snd (login ev d email password ip ua))
              = Inr (LoginFailure ''Invalid credentials''))
   \<and> (e_audit_ok ev \<and> fst (verifyUser (e_compare ev) d email password) = Some user
        \<longrightarrow> (\<exists>uw. getUserWithRoles d (us_id user) = Some uw
              \<and> snd (snd (login ev d email password ip ua))
                  = Inr (LoginSuccess uw (generateToken uw)
                           \<lparr>sh_token = e_uuidv4 ev, sh_expiresAt = e_now ev + 86400000\<rparr>)))
   \<and> (fst (verifyUser (e_compare ev) d email password) = Some user
        \<longrightarrow> sessions (fst (login ev d email password ip ua)) = sessions d @
              [\<lparr>s_id = e_row_uuid ev, s_user_id = us_id user, s_token = e_uuidv4 ev,
                s_ip_address = ip, s_user_agent = ua, s_created_at = e_now ev,
                s_expires_at = e_now ev + 86400000, s_is_valid = True\<rparr>])"
proof (intro conjI impI)
  assume down: "\<not> e_audit_ok ev"
  show "snd (snd (login ev d email password ip ua)) = Inl QueryError"
  proof (cases "fst (verifyUser (e_compare ev) d email password)")
    case None
    then show ?thesis using down by (simp add: login_rejected_user)
  next
    case (Some u)
    then show ?thesis using down login_accepted_user[OF Some, of ip ua] by auto
  qed
next
  assume "e_audit_ok ev \<and> fst (verifyUser (e_compare ev) d email password) = None"
  then show "snd (snd (login ev d email password ip ua)) = Inr (LoginFailure ''Invalid credentials'')"
    by (simp add: login_rejected_user)
next
  assume h: "e_audit_ok ev \<and> fst (verifyUser (e_compare ev) d email password) = Some user"
  then have v: "fst (verifyUser (e_compare ev) d email password) = Some user" by simp
  show "\<exists>uw. getUserWithRoles d (us_id user) = Some uw
              \<and> snd (snd (login ev d email password ip ua))
                  = Inr (LoginSuccess uw (generateToken uw)
                           \<lparr>sh_token = e_uuidv4 ev, sh_expiresAt = e_now ev + 86400000\<rparr>)"
    using login_accepted_user[OF v, of ip ua] h by auto
next
  assume v: "fst (verifyUser (e_compare ev) d email password) = Some user"
  show "sessions (fst (login ev d email password ip ua)) = sessions d @
              [\<lparr>s_id = e_row_uuid ev, s_user_id = us_id user, s_token = e_uuidv4 ev,
                s_ip_address = ip, s_user_agent = ua, s_created_at = e_now ev,
                s_expires_at = e_now ev + 86400000, s_is_valid = True\<rparr>]"
    by (simp only: login_accepted_sessions[OF v] sessions_createSession)
qed

theorem login_awaits_audit_write_witness:
  "\<not> e_audit_ok env_audit_down \<and> e_audit_ok env0
   \<and> snd (snd (login env_audit_down db0 ''alice@example.com'' ''Secret123!'' ''10.0.0.9'' ''curl''))
       = Inl QueryError
   \<and> length (sessions (fst (login env_audit_down db0 ''alice@example.com'' ''Secret123!''
                               ''10.0.0.9'' ''curl''))) = 3
   \<and> snd (snd (login env0 db0 ''alice@example.com'' ''wrong'' ''10.0.0.9'' ''curl''))
       = Inr (LoginFailure ''Invalid credentials'')"
proof -
  have down: "\<not> e_audit_ok env_audit_down" and ok: "e_audit_ok env0"
    by (simp_all add: env_audit_down_def env0_def)
  have v1: "fst (verifyUser (e_compare env_audit_down) db0 ''alice@example.com'' ''Secret123!'')
              = Some \<lparr>us_id = 1, us_username = ''alice''\<rparr>"
    and v2: "fst (verifyUser (e_compare env0) db0 ''alice@example.com'' ''wrong'') = None"
    by (simp_all add: verifyUser_def env_audit_down_def env0_def db0_def alice_def bob_def
          toy_compare_def)
  have n: "length (sessions db0) = 2"
    by (simp add: db0_def)
  note w1 = login_awaits_audit_write[of env_audit_down db0 "''alice@example.com''"
      "''Secret123!''" "''10.0.0.9''" "''curl''" "\<lparr>us_id = 1, us_username = ''alice''\<rparr>"]
  note w2 = login_awaits_audit_write[of env0 db0 "''alice@example.com''"
      "''wrong''" "''10.0.0.9''" "''curl''" "\<lparr>us_id = 1, us_username = ''alice''\<rparr>"]
  show ?thesis
    using w1 w2 down ok v1 v2 n by simp
qed

section \<open>Further properties\<close>

text \<open>
  After a successful \<open>login\<close> of an active user, \<open>validateSession\<close> accepts the token of
  the returned session at any time before the 24 hours are over, whether or not the
  audit insert went through.
\<close>

theorem login_then_validateSession:
  assumes v: "fst (verifyUser (e_compare ev) d email password) = Some user"
    and fresh: "e_uuidv4 ev \<notin> set (map s_token (sessions d))"
    and ds: "distinct (map s_token (sessions d))"
    and du: "distinct (map u_id (users d))"
    and u: "u \<in> set (users d)" "u_id u = us_id user" "u_is_active u"
    and t: "now < e_now ev + 86400000"
  shows "snd (validateSession now (fst (login ev d email password ip ua)) (e_uuidv4 ev))
           = Some \<lparr>si_id = e_row_uuid ev, si_userId = us_id user, si_username = u_username u,
                    si_expiresAt = e_now ev + 86400000\<rparr>"
proof -
  let ?d' = "fst (login ev d email password ip ua)"
  let ?row = "\<lparr>s_id = e_row_uuid ev, s_user_id = us_id user, s_token = e_uuidv4 ev,
               s_ip_address = ip, s_user_agent = ua, s_created_at = e_now ev,
               s_expires_at = e_now ev + 86400000, s_is_valid = True\<rparr>"
  let ?f = "\<lambda>u. if u_id u = us_id user then u\<lparr>u_last_login := Some (e_now ev)\<rparr> else u"
  let ?u' = "u\<lparr>u_last_login := Some (e_now ev)\<rparr>"
  have ss: "sessions ?d' = sessions d @ [?row]"
    by (simp only: login_accepted_sessions[OF v] sessions_createSession)
  have us: "users ?d' = map ?f (users d)"
    by (rule login_accepted_users[OF v])
  have comp: "u_id \<circ> ?f = u_id"
    by (rule ext) simp
  have 1: "?row \<in> set (sessions ?d')" using ss by simp
  have 2: "distinct (map s_token (sessions ?d'))" using ss ds fresh by simp
  have "?f u \<in> set (map ?f (users d))" unfolding set_map using u(1) by (rule imageI)
  then have 3: "?u' \<in> set (users ?d')" using us u(2) by simp
  have 4: "u_id ?u' = s_user_id ?row" using u(2) by simp
  have 5: "distinct (map u_id (users ?d'))"
    unfolding us map_map comp by (rule du)
  have rows: "session_rows now ?d' (s_token ?row) = [(?row, ?u')]"
    using 1 2 3 4 5 by (rule session_rows_single) (use t in simp_all)
  then have "session_rows now ?d' (e_uuidv4 ev) = [(?row, ?u')]" by simp
  then show ?thesis using u(3) by (simp add: snd_validateSession)
qed

theorem login_then_validateSession_witness:
  "snd (validateSession 600
          (fst (login env0 db0 ''alice@example.com'' ''Secret123!'' ''10.0.0.9'' ''curl''))
          ''tok-c'')
     = Some \<lparr>si_id = ''row-c'', si_userId = 1, si_username = ''alice'',
              si_expiresAt = 86400500\<rparr>"
proof -
  have v: "fst (verifyUser (e_compare env0) db0 ''alice@example.com'' ''Secret123!'')
             = Some \<lparr>us_id = 1, us_username = ''alice''\<rparr>"
    by (simp add: verifyUser_def env0_def db0_def alice_def bob_def toy_compare_def)
  have fresh: "e_uuidv4 env0 \<notin> set (map s_token (sessions db0))"
    and ds: "distinct (map s_token (sessions db0))"
    and du: "distinct (map u_id (users db0))"
    and u: "alice \<in> set (users db0)" "u_id alice = us_id \<lparr>us_id = 1, us_username = ''alice''\<rparr>"
      "u_is_active alice"
    and t: "600 < e_now env0 + 86400000"
    by (simp_all add: env0_def db0_def session_a_def session_b_def alice_def bob_def)
  show ?thesis
    using login_then_validateSession[OF v fresh ds du u t, of "''10.0.0.9''" "''curl''"]
    by (simp add: env0_def alice_def)
qed

text \<open>
  What \<open>registerUser\<close> stores is what \<open>verifyUser\<close> compares against: after a
  registration that succeeded, \<open>verifyUser\<close> with the same email finds the new row, makes
  one \<open>bcrypt.compare\<close> call of the offered password against the stored hash, and returns
  the new user's id and name exactly when that comparison holds.
\<close>

theorem registerUser_then_verifyUser:
  assumes "registerUser hash next_id now d username email password = Inr (d', userId)"
  shows "userId = next_id
       \<and> (compare password (hash password 12) \<longrightarrow>
            fst (verifyUser compare d' email password)
              = Some \<lparr>us_id = userId, us_username = username\<rparr>)
       \<and> (\<not> compare other (hash password 12) \<longrightarrow>
            fst (verifyUser compare d' email other) = None)
       \<and> snd (verifyUser compare d' email other) = [BcryptCompare other (hash password 12)]"
proof -
  let ?row = "\<lparr>u_id = next_id, u_username = username, u_email = email,
                u_password_hash = hash password 12, u_created_at = now,
                u_last_login = None, u_is_active = True\<rparr>"
  have free: "\<not> list_ex (\<lambda>u. u_id u = next_id \<or> u_username u = username \<or> u_email u = email)
                 (users d)"
    using assms by (auto simp: registerUser_def Let_def split: if_splits)
  then have d': "users d' = users d @ [?row]" and id: "userId = next_id"
    using assms by (auto simp: registerUser_def Let_def split: if_splits)
  have "\<forall>u\<in>set (users d). \<not> u_email u = email"
    using free by (auto simp: list_ex_iff)
  then have f: "find (\<lambda>u. u_email u = email) (users d') = Some ?row"
    unfolding d' by (rule find_append_new) simp
  show ?thesis
    using f id by (simp add: verifyUser_def Let_def)
qed

theorem registerUser_then_verifyUser_witness:
  "registerUser toy_hash 3 700 db0 ''erin'' ''erin@example.com'' ''Secret123!''
     = Inr (db0\<lparr>users := users db0 @
                [\<lparr>u_id = 3, u_username = ''erin'', u_email = ''erin@example.com'',
                  u_password_hash = ''hash-of-Secret123!'', u_created_at = 700,
                  u_last_login = None, u_is_active = True\<rparr>]\<rparr>, 3)
   \<and> fst (verifyUser toy_compare
           (db0\<lparr>users := users db0 @
                [\<lparr>u_id = 3, u_username = ''erin'', u_email = ''erin@example.com'',
                  u_password_hash = ''hash-of-Secret123!'', u_created_at = 700,
                  u_last_login = None, u_is_active = True\<rparr>]\<rparr>)
           ''erin@example.com'' ''Secret123!'')
       = Some \<lparr>us_id = 3, us_username = ''erin''\<rparr>
   \<and> fst (verifyUser toy_compare
           (db0\<lparr>users := users db0 @
                [\<lparr>u_id = 3, u_username = ''erin'', u_email = ''erin@example.com'',
                  u_password_hash = ''hash-of-Secret123!'', u_created_at = 700,
                  u_last_login = None, u_is_active = True\<rparr>]\<rparr>)
           ''erin@example.com'' ''wrong'')
       = None"
proof -
  let ?d' = "db0\<lparr>users := users db0 @
                [\<lparr>u_id = 3, u_username = ''erin'', u_email = ''erin@example.com'',
                  u_password_hash = ''hash-of-Secret123!'', u_created_at = 700,
                  u_last_login = None, u_is_active = True\<rparr>]\<rparr>"
  have r: "registerUser toy_hash 3 700 db0 ''erin'' ''erin@example.com'' ''Secret123!''
             = Inr (?d', 3)"
    by (simp add: registerUser_def toy_hash_def db0_def alice_def bob_def)
  have c: "toy_compare ''Secret123!'' (toy_hash ''Secret123!'' 12)"
    "\<not> toy_compare ''wrong'' (toy_hash ''Secret123!'' 12)"
    by (simp_all add: toy_compare_def toy_hash_def)
  show ?thesis
    using registerUser_then_verifyUser[OF r, of toy_compare "''wrong''"] r c by simp
qed

end
